theory Spec2Isabelle
  imports Complex_Main
begin

section \<open>Run-time values\<close>

text \<open>
  The TypeScript types of the file are erased at run time: \<^verbatim>\<open>LineStyle\<close> and
  \<^verbatim>\<open>ArrowStyle\<close> are unions of string literals, so their values are plain strings.
  A property value is therefore \<^verbatim>\<open>undefined\<close>, a string, a number, or (for the dash
  patterns of \<^verbatim>\<open>LINE_PATTERN\<close>) an array of numbers. One list element of a
  \<open>string\<close> stands for one UTF-16 code unit, which is what \<^verbatim>\<open>length\<close> and
  \<^verbatim>\<open>substring\<close> count. Numbers are only copied and tested for truth, never
  computed with; \<^verbatim>\<open>NaN\<close> is not among them.
\<close>

datatype jsval = Undefined | Str string | Num real | NumArray "real list"

text \<open>JavaScript truthiness, as used by \<^verbatim>\<open>||\<close> and \<^verbatim>\<open>? :\<close>.\<close>

fun truthy :: "jsval \<Rightarrow> bool" where
  "truthy Undefined = False"
| "truthy (Str s) = (s \<noteq> [])"
| "truthy (Num n) = (n \<noteq> 0)"
| "truthy (NumArray xs) = True"

section \<open>Edge preferences\<close>

text \<open>
  The optional keys of \<^verbatim>\<open>EdgePreferences\<close>. An object holds a subset of them: a key
  can be absent, or present with any value, \<^verbatim>\<open>undefined\<close> included. Object spread
  copies every own key, whatever its value, so the two cases are kept apart: the optional
  part of an object is a map from keys to values.
\<close>

datatype field =
    displayLabel
  | displayNameAttribute
  | labelColor
  | labelBackgroundOpacity
  | labelBorderColor
  | labelBorderStyle
  | labelBorderWidth
  | labelOpacity
  | lineColor
  | lineThickness
  | lineStyle
  | sourceArrowStyle
  | targetArrowStyle

type_synonym UpdatedEdgeStyle = "field \<rightharpoonup> jsval"

record EdgePreferences =
  type :: string
  props :: UpdatedEdgeStyle

text \<open>
  Modelled from the spec: the declaration of \<^verbatim>\<open>EdgeTypeConfig\<close>, which is in the
  configuration provider and not in this file. It has a type id and the style fields;
  the hook reads its \<^verbatim>\<open>type\<close> and the style keys above, nothing else, so an edge
  type configuration has the same shape here.
\<close>

type_synonym EdgeTypeConfig = EdgePreferences

record UserStyling =
  vertices :: "jsval list option"
  edges :: "EdgePreferences list option"

text \<open>Reading a property: an absent key reads as \<^verbatim>\<open>undefined\<close>.\<close>

definition getp :: "EdgePreferences \<Rightarrow> field \<Rightarrow> jsval" where
  "getp obj f = (case props obj f of None \<Rightarrow> Undefined | Some v \<Rightarrow> v)"

section \<open>The style hook: edge rules\<close>

text \<open>
  \<^verbatim>\<open>const LINE_PATTERN = { solid: undefined, dashed: [5, 6], dotted: [1, 2] }\<close>,
  an object literal, as the list of its keys and values.
\<close>

definition LINE_PATTERN :: "(string \<times> jsval) list" where
  "LINE_PATTERN =
     [(''solid'', Undefined),
      (''dashed'', NumArray [5, 6]),
      (''dotted'', NumArray [1, 2])]"

text \<open>
  \<^verbatim>\<open>LINE_PATTERN[key]\<close>. A key that is none of the three reads as
  \<^verbatim>\<open>undefined\<close>; the type \<^verbatim>\<open>LineStyle\<close> admits no other key.
\<close>

definition LINE_PATTERN_at :: "jsval \<Rightarrow> jsval" where
  "LINE_PATTERN_at key =
     (case key of
        Str k \<Rightarrow> (case map_of LINE_PATTERN k of None \<Rightarrow> Undefined | Some v \<Rightarrow> v)
      | _ \<Rightarrow> Undefined)"

text \<open>
  Modelled from the spec: the declaration of \<^verbatim>\<open>DisplayEdge\<close>, of which the hook
  reads the display name only.
\<close>

record DisplayEdge =
  displayName :: string

text \<open>
  What the hook takes from outside this file: the text transform, the map of the edges
  displayed in the canvas, the function from a rendered edge id to the edge id, the
  constant shown for a missing value, and \<^verbatim>\<open>new Color(c).isDark()\<close> of the colour
  package, which is \<open>None\<close> where the constructor throws.
\<close>

record deps =
  textTransform :: "string \<Rightarrow> string"
  displayEdges :: "string \<rightharpoonup> DisplayEdge"
  getEdgeIdFromRenderedEdgeId :: "string \<Rightarrow> string"
  MISSING_DISPLAY_VALUE :: string
  colorIsDark :: "jsval \<Rightarrow> bool option"

text \<open>
  A style rule maps attribute names to values. A value is a constant or, for the label,
  a function of the rendered element, which is given here by its id (\<^verbatim>\<open>el.id()\<close>).
\<close>

datatype attr = Static jsval | Deferred "string \<Rightarrow> string"

type_synonym rule = "string \<rightharpoonup> attr"

type_synonym styles = "string \<rightharpoonup> rule"

definition edgeSelector :: "string \<Rightarrow> string" where
  "edgeSelector et = ''edge[type=\"'' @ et @ ''\"]''"

text \<open>\<^verbatim>\<open>allStyling.edges?.find(edge => edge.type === et)\<close>\<close>

definition userEdgeStyle :: "UserStyling \<Rightarrow> string \<Rightarrow> EdgePreferences option" where
  "userEdgeStyle allStyling et =
     (case edges allStyling of
        None \<Rightarrow> None
      | Some es \<Rightarrow> find (\<lambda>edge. type edge = et) es)"

text \<open>
  \<^verbatim>\<open>let label = textTransform(et); if (label.length > 20) label = label.substring(0, 17) + "..."\<close>
\<close>

definition staticLabel :: "deps \<Rightarrow> string \<Rightarrow> string" where
  "staticLabel d et =
     (let label = textTransform d et
      in if length label > 20 then take 17 label @ ''...'' else label)"

text \<open>
  \<^verbatim>\<open>{ ...etConfig, ...userEdgeStyle }\<close>: the keys of the second object win; spreading
  \<^verbatim>\<open>undefined\<close> adds nothing.
\<close>

definition mergedConfig :: "EdgeTypeConfig \<Rightarrow> EdgePreferences option \<Rightarrow> EdgePreferences" where
  "mergedConfig etConfig ues =
     (case ues of
        None \<Rightarrow> etConfig
      | Some u \<Rightarrow> \<lparr>type = type u, props = props etConfig ++ props u\<rparr>)"

text \<open>The function bound to \<^verbatim>\<open>label\<close> in the second assignment.\<close>

definition labelResolver :: "deps \<Rightarrow> string \<Rightarrow> string" where
  "labelResolver d edgeId =
     (case displayEdges d (getEdgeIdFromRenderedEdgeId d edgeId) of
        Some displayEdge \<Rightarrow> displayName displayEdge
      | None \<Rightarrow> MISSING_DISPLAY_VALUE d)"

text \<open>
  \<^verbatim>\<open>new Color(mergedConfig?.labelColor || "#17457b").isDark() ? "#FFFFFF" : "#000000"\<close>
\<close>

definition textColor :: "deps \<Rightarrow> EdgePreferences \<Rightarrow> jsval option" where
  "textColor d merged =
     (let c = (if truthy (getp merged labelColor) then getp merged labelColor
               else Str ''#17457b'')
      in case colorIsDark d c of
           None \<Rightarrow> None
         | Some dark \<Rightarrow> Some (Str (if dark then ''#FFFFFF'' else ''#000000'')))"

text \<open>The first object assigned to the selector of the edge type.\<close>

definition staticRule :: "string \<Rightarrow> rule" where
  "staticRule label =
     map_of
      [(''label'', Static (Str label)),
       (''source-distance-from-node'', Static (Num 0)),
       (''target-distance-from-node'', Static (Num 0))]"

text \<open>
  The second object, which replaces the first one under the same selector: its keys and
  values in the order of the source, for a text colour already computed.
\<close>

definition edgeRuleAttrs :: "deps \<Rightarrow> EdgePreferences \<Rightarrow> jsval \<Rightarrow> (string \<times> attr) list" where
  "edgeRuleAttrs d merged color =
     [(''label'', Deferred (labelResolver d)),
      (''color'', Static color),
      (''line-color'', Static (getp merged lineColor)),
      (''line-style'',
         Static (if getp merged lineStyle = Str ''dotted'' then Str ''dashed''
                 else getp merged lineStyle)),
      (''line-dash-pattern'',
         Static (if truthy (getp merged lineStyle)
                 then LINE_PATTERN_at (getp merged lineStyle) else Undefined)),
      (''source-arrow-shape'', Static (getp merged sourceArrowStyle)),
      (''source-arrow-color'', Static (getp merged lineColor)),
      (''target-arrow-shape'', Static (getp merged targetArrowStyle)),
      (''target-arrow-color'', Static (getp merged lineColor)),
      (''text-background-opacity'', Static (getp merged labelBackgroundOpacity)),
      (''text-background-color'', Static (getp merged labelColor)),
      (''text-border-width'', Static (getp merged labelBorderWidth)),
      (''text-border-color'', Static (getp merged labelBorderColor)),
      (''text-border-style'', Static (getp merged labelBorderStyle)),
      (''width'', Static (getp merged lineThickness)),
      (''source-distance-from-node'', Static (Num 0)),
      (''target-distance-from-node'', Static (Num 0))]"

text \<open>The object is built only if the colour package does not throw.\<close>

definition edgeRule :: "deps \<Rightarrow> EdgePreferences \<Rightarrow> rule option" where
  "edgeRule d merged =
     (case textColor d merged of
        None \<Rightarrow> None
      | Some color \<Rightarrow> Some (map_of (edgeRuleAttrs d merged color)))"

text \<open>
  The loop over the edge type configurations. \<open>styles\<close> is the object the loop over
  the vertex types has filled before. The result is \<open>None\<close> when the colour package
  throws: the pass then ends without calling \<^verbatim>\<open>setStyles\<close>.
\<close>

fun edgeStyles :: "deps \<Rightarrow> UserStyling \<Rightarrow> styles \<Rightarrow> EdgeTypeConfig list \<Rightarrow> styles option" where
  "edgeStyles d allStyling styles [] = Some styles"
| "edgeStyles d allStyling styles (etConfig # rest) =
     (let et = type etConfig;
          ues = userEdgeStyle allStyling et;
          label = staticLabel d et;
          styles1 = styles(edgeSelector et \<mapsto> staticRule label);
          merged = mergedConfig etConfig ues
      in case edgeRule d merged of
           None \<Rightarrow> None
         | Some r \<Rightarrow> edgeStyles d allStyling (styles1(edgeSelector et \<mapsto> r)) rest)"

section \<open>The edge styling provider and its hook\<close>

text \<open>
  \<^verbatim>\<open>clone\<close> of lodash makes a new object with the same keys and values. The
  updaters below assign a new array to \<^verbatim>\<open>edges\<close> of that copy and change no
  array or entry in place, so values describe them fully.
\<close>

definition clone :: "UserStyling \<Rightarrow> UserStyling" where
  "clone prev = prev"

text \<open>\<^verbatim>\<open>allStyling.edges?.find(v => v.type === type)\<close> of \<^verbatim>\<open>useEdgeStyling\<close>.\<close>

definition edgeStyle :: "UserStyling \<Rightarrow> string \<Rightarrow> EdgePreferences option" where
  "edgeStyle styling type' =
     (case edges styling of
        None \<Rightarrow> None
      | Some es \<Rightarrow> find (\<lambda>v. type v = type') es)"

text \<open>
  The updater that \<^verbatim>\<open>setEdgeStyle\<close> hands to \<^verbatim>\<open>setAllStyling\<close>. The type
  \<^verbatim>\<open>UpdatedEdgeStyle\<close> omits the key \<^verbatim>\<open>type\<close>, so the spread
  \<^verbatim>\<open>{ ...existing, ...updatedStyle }\<close> keeps the type of the existing entry.
\<close>

definition setEdgeStyle :: "string \<Rightarrow> UpdatedEdgeStyle \<Rightarrow> UserStyling \<Rightarrow> UserStyling" where
  "setEdgeStyle type' updatedStyle prev =
     (let hasEntry = (case edges prev of
                        None \<Rightarrow> False
                      | Some es \<Rightarrow> list_ex (\<lambda>v. type v = type') es)
      in if hasEntry then
           prev\<lparr>edges :=
             map_option
               (map (\<lambda>existing.
                  if type existing = type'
                  then existing\<lparr>props := props existing ++ updatedStyle\<rparr>
                  else existing))
               (edges prev)\<rparr>
         else
           prev\<lparr>edges :=
             Some ((case edges prev of None \<Rightarrow> [] | Some es \<Rightarrow> es)
                   @ [\<lparr>type = type', props = updatedStyle\<rparr>])\<rparr>)"

text \<open>The updater of \<^verbatim>\<open>resetEdgeStyle\<close>.\<close>

definition resetEdgeStyle :: "string \<Rightarrow> UserStyling \<Rightarrow> UserStyling" where
  "resetEdgeStyle type' prev =
     prev\<lparr>edges := map_option (filter (\<lambda>v. type v \<noteq> type')) (edges prev)\<rparr>"

text \<open>
  The provider holds two pieces of React state. Its effects on the outside are the calls
  \<^verbatim>\<open>localForage.setItem("user-styling", v)\<close>, recorded oldest first with the value
  they carry, and the lines written with \<^verbatim>\<open>console.error\<close>.
\<close>

datatype logged = LoadFailed string | SaveFailed string

record provider =
  allStyling :: UserStyling
  isLoading :: bool
  setItemCalls :: "UserStyling list"
  consoleErrors :: "logged list"

text \<open>
  The second effect, with dependencies \<^verbatim>\<open>[allStyling, isLoading]\<close>: it runs after
  the first render and after every render in which one of the two has changed.
\<close>

definition saveEffect :: "provider \<Rightarrow> provider" where
  "saveEffect p =
     (if \<not> isLoading p then p\<lparr>setItemCalls := setItemCalls p @ [allStyling p]\<rparr>
      else p)"

text \<open>
  The provider after its first render and its two effects: \<^verbatim>\<open>getItem\<close> has been
  called and has not settled, the save effect has run with \<^verbatim>\<open>isLoading\<close> true.
\<close>

definition mounted :: provider where
  "mounted =
     saveEffect
       \<lparr>allStyling = \<lparr>vertices = None, edges = None\<rparr>,
        isLoading = True,
        setItemCalls = [],
        consoleErrors = []\<rparr>"

text \<open>
  \<^verbatim>\<open>setAllStyling(updater)\<close> is a state update: the styling becomes the updater's
  result on a clone. The call itself writes nothing; the save effect runs after React
  has committed the render.
\<close>

definition setAllStyling :: "(UserStyling \<Rightarrow> UserStyling) \<Rightarrow> provider \<Rightarrow> provider" where
  "setAllStyling updater p = p\<lparr>allStyling := updater (clone (allStyling p))\<rparr>"

text \<open>
  The two mutations of the hook as calls, and the updater each of them hands to
  \<^verbatim>\<open>setAllStyling\<close>.
\<close>

datatype mutation = SetStyle string UpdatedEdgeStyle | ResetStyle string

fun updaterOf :: "mutation \<Rightarrow> UserStyling \<Rightarrow> UserStyling" where
  "updaterOf (SetStyle type' updatedStyle) = setEdgeStyle type' updatedStyle"
| "updaterOf (ResetStyle type') = resetEdgeStyle type'"

text \<open>The styling after a sequence of calls: the updaters applied in the order of the calls.\<close>

definition afterCalls :: "mutation list \<Rightarrow> UserStyling \<Rightarrow> UserStyling" where
  "afterCalls ms styling = foldl (\<lambda>a m. updaterOf m a) styling ms"

text \<open>
  React commits the state updates made before a render together, each updater applied to
  the result of the one before. The result of an updater is a new object, so
  \<^verbatim>\<open>allStyling\<close> has changed and the save effect runs, once, after the commit. A
  render with no update does not happen.
\<close>

definition render :: "mutation list \<Rightarrow> provider \<Rightarrow> provider" where
  "render ms p =
     (if ms = [] then p
      else saveEffect (foldl (\<lambda>q m. setAllStyling (updaterOf m) q) p ms))"

text \<open>
  What can happen to a mounted provider: a component calls \<^verbatim>\<open>setEdgeStyle\<close> or
  \<^verbatim>\<open>resetEdgeStyle\<close> of the hook for some type and React renders; several such
  calls are made and React renders them in one batch; the promise of \<^verbatim>\<open>getItem\<close>
  resolves (with the stored value or with \<^verbatim>\<open>null\<close>) or rejects; or the promise of
  a \<^verbatim>\<open>setItem\<close> rejects.
\<close>

datatype event =
    SetEdgeStyle string UpdatedEdgeStyle
  | ResetEdgeStyle string
  | Batch "mutation list"
  | LoadResolved "UserStyling option"
  | LoadRejected string
  | SaveRejected string

text \<open>
  \<^verbatim>\<open>loadData\<close> sets the stored value when there is one, logs when the read fails,
  and in both cases sets \<^verbatim>\<open>isLoading\<close> to false; these state updates happen in one
  go, and the save effect runs after them. The promise settles once: \<^verbatim>\<open>isLoading\<close>
  is true exactly until it does, and a settlement event after that changes nothing.
\<close>

fun step :: "provider \<Rightarrow> event \<Rightarrow> provider" where
  "step p (SetEdgeStyle type' updatedStyle) = render [SetStyle type' updatedStyle] p"
| "step p (ResetEdgeStyle type') = render [ResetStyle type'] p"
| "step p (Batch ms) = render ms p"
| "step p (LoadResolved stored) =
     (if isLoading p then
        saveEffect
          ((case stored of Some s \<Rightarrow> p\<lparr>allStyling := s\<rparr> | None \<Rightarrow> p)\<lparr>isLoading := False\<rparr>)
      else p)"
| "step p (LoadRejected error) =
     (if isLoading p then
        saveEffect (p\<lparr>consoleErrors := consoleErrors p @ [LoadFailed error],
                      isLoading := False\<rparr>)
      else p)"
| "step p (SaveRejected error) = p\<lparr>consoleErrors := consoleErrors p @ [SaveFailed error]\<rparr>"

definition run :: "event list \<Rightarrow> provider" where
  "run evs = foldl step mounted evs"

text \<open>At most one entry per type id.\<close>

definition uniqueTypes :: "UserStyling \<Rightarrow> bool" where
  "uniqueTypes styling =
     (case edges styling of None \<Rightarrow> True | Some es \<Rightarrow> distinct (map type es))"

section \<open>Sample inputs\<close>

text \<open>
  The colour package is not part of the repository. The sample environment has a
  stand-in for its \<^verbatim>\<open>isDark\<close> on colours written \<^verbatim>\<open>#rrggbb\<close>: dark when the
  weighted sum of the channels is below the threshold 128; any other value is taken as
  one the constructor rejects.
\<close>

definition hexDigit :: "char \<Rightarrow> nat option" where
  "hexDigit c =
     (let n = (of_char c :: nat)
      in if 48 \<le> n \<and> n \<le> 57 then Some (n - 48)
         else if 97 \<le> n \<and> n \<le> 102 then Some (n - 87)
         else if 65 \<le> n \<and> n \<le> 70 then Some (n - 55)
         else None)"

definition hexByte :: "char \<Rightarrow> char \<Rightarrow> nat option" where
  "hexByte hi lo =
     (case (hexDigit hi, hexDigit lo) of
        (Some h, Some l) \<Rightarrow> Some (16 * h + l)
      | _ \<Rightarrow> None)"

fun hexIsDark :: "jsval \<Rightarrow> bool option" where
  "hexIsDark (Str [h, r1, r2, g1, g2, b1, b2]) =
     (if h = CHR ''#'' then
        (case (hexByte r1 r2, hexByte g1 g2, hexByte b1 b2) of
           (Some r, Some g, Some b) \<Rightarrow> Some (r * 2126 + g * 7152 + b * 722 < 128 * 10000)
         | _ \<Rightarrow> None)
      else None)"
| "hexIsDark _ = None"

definition sampleDeps :: deps where
  "sampleDeps =
     \<lparr>textTransform = (\<lambda>s. s),
      displayEdges = [''e1'' \<mapsto> \<lparr>displayName = ''Alice knows Bob''\<rparr>],
      getEdgeIdFromRenderedEdgeId = (\<lambda>renderedId. take 2 renderedId),
      MISSING_DISPLAY_VALUE = ''---'',
      colorIsDark = hexIsDark\<rparr>"

definition sampleConfig :: "jsval \<Rightarrow> EdgeTypeConfig" where
  "sampleConfig ls =
     \<lparr>type = ''knows'',
      props = [lineColor \<mapsto> Str ''#112233'', lineStyle \<mapsto> ls, lineThickness \<mapsto> Num 1]\<rparr>"

definition sampleStyle :: UpdatedEdgeStyle where
  "sampleStyle = [lineThickness \<mapsto> Num 4]"

definition sampleStyling :: UserStyling where
  "sampleStyling =
     \<lparr>vertices = None, edges = Some [\<lparr>type = ''knows'', props = sampleStyle\<rparr>]\<rparr>"

definition sampleProvider :: provider where
  "sampleProvider =
     \<lparr>allStyling = sampleStyling, isLoading = False, setItemCalls = [], consoleErrors = []\<rparr>"

section \<open>Label truncation\<close>

text \<open>
  C3. The static label of an edge type is the transformed type id itself when that has
  at most 20 characters; when it has more, the label is its first 17 characters followed
  by three dots, 20 characters in all.
\<close>

theorem staticLabel_truncation:
  "(length (textTransform d et) \<le> 20 \<longrightarrow> staticLabel d et = textTransform d et) \<and>
   (length (textTransform d et) > 20 \<longrightarrow>
      staticLabel d et = take 17 (textTransform d et) @ ''...'' \<and>
      length (staticLabel d et) = 20)"
  by (simp add: staticLabel_def Let_def)

theorem staticLabel_truncation_witness:
  "length (textTransform sampleDeps ''knows'') \<le> 20 \<and>
   staticLabel sampleDeps ''knows'' = ''knows'' \<and>
   length (textTransform sampleDeps ''has_previous_employment_at'') > 20 \<and>
   staticLabel sampleDeps ''has_previous_employment_at'' = ''has_previous_empl...''"
  using staticLabel_truncation [of sampleDeps "''knows''"]
        staticLabel_truncation [of sampleDeps "''has_previous_employment_at''"]
  by (simp add: sampleDeps_def)

section \<open>Merging a type configuration with the user's override\<close>

lemma find_first_match:
  "\<forall>e\<in>set pre. \<not> P e \<Longrightarrow> P x \<Longrightarrow> find P (pre @ x # post) = Some x"
  by (induction pre) auto

lemma find_no_match: "\<forall>e\<in>set es. \<not> P e \<Longrightarrow> find P es = None"
  by (induction es) auto

text \<open>
  C1. For an edge type configuration and a key F of the style: when the user's list has
  an entry for the type (the first one with that type id, which is the one the hook
  finds), the merged style has the entry's value at F if the entry holds the key F, and
  the configuration's value otherwise. When the list is missing or has no entry for the
  type, the merged style has the configuration's value at every key.
\<close>

theorem mergedConfig_field_precedence:
  "(edges styling = Some (pre @ ov # post) \<and> (\<forall>e\<in>set pre. type e \<noteq> type etConfig) \<and>
    type ov = type etConfig \<longrightarrow>
      props (mergedConfig etConfig (userEdgeStyle styling (type etConfig))) F =
        (if F \<in> dom (props ov) then props ov F else props etConfig F)) \<and>
   ((\<forall>es. edges styling = Some es \<longrightarrow> (\<forall>e\<in>set es. type e \<noteq> type etConfig)) \<longrightarrow>
      props (mergedConfig etConfig (userEdgeStyle styling (type etConfig))) F = props etConfig F)"
proof (intro conjI impI)
  assume a: "edges styling = Some (pre @ ov # post) \<and>
    (\<forall>e\<in>set pre. type e \<noteq> type etConfig) \<and> type ov = type etConfig"
  then have "userEdgeStyle styling (type etConfig) = Some ov"
    by (simp add: userEdgeStyle_def find_first_match)
  then show "props (mergedConfig etConfig (userEdgeStyle styling (type etConfig))) F =
        (if F \<in> dom (props ov) then props ov F else props etConfig F)"
    by (auto simp: mergedConfig_def map_add_def split: option.splits)
next
  assume a: "\<forall>es. edges styling = Some es \<longrightarrow> (\<forall>e\<in>set es. type e \<noteq> type etConfig)"
  have "userEdgeStyle styling (type etConfig) = None"
  proof (cases "edges styling")
    case None
    then show ?thesis by (simp add: userEdgeStyle_def)
  next
    case (Some es)
    with a have "\<forall>e\<in>set es. type e \<noteq> type etConfig" by simp
    then have "find (\<lambda>edge. type edge = type etConfig) es = None"
      by (intro find_no_match) simp
    with Some show ?thesis by (simp add: userEdgeStyle_def)
  qed
  then show "props (mergedConfig etConfig (userEdgeStyle styling (type etConfig))) F = props etConfig F"
    by (simp add: mergedConfig_def)
qed

theorem mergedConfig_field_precedence_witness:
  "edges sampleStyling = Some ([] @ \<lparr>type = ''knows'', props = sampleStyle\<rparr> # []) \<and>
   type \<lparr>type = ''knows'', props = sampleStyle\<rparr> = type (sampleConfig (Str ''dotted'')) \<and>
   props (mergedConfig (sampleConfig (Str ''dotted''))
            (userEdgeStyle sampleStyling (type (sampleConfig (Str ''dotted''))))) lineThickness
     = Some (Num 4) \<and>
   props (mergedConfig (sampleConfig (Str ''dotted''))
            (userEdgeStyle sampleStyling (type (sampleConfig (Str ''dotted''))))) lineColor
     = Some (Str ''#112233'') \<and>
   edges \<lparr>vertices = None, edges = None\<rparr> = None \<and>
   props (mergedConfig (sampleConfig (Str ''dotted''))
            (userEdgeStyle \<lparr>vertices = None, edges = None\<rparr>
               (type (sampleConfig (Str ''dotted''))))) lineThickness
     = Some (Num 1)"
  using
    mergedConfig_field_precedence
      [of sampleStyling "[]" "\<lparr>type = ''knows'', props = sampleStyle\<rparr>" "[]"
          "sampleConfig (Str ''dotted'')" lineThickness]
    mergedConfig_field_precedence
      [of sampleStyling "[]" "\<lparr>type = ''knows'', props = sampleStyle\<rparr>" "[]"
          "sampleConfig (Str ''dotted'')" lineColor]
    mergedConfig_field_precedence
      [of "\<lparr>vertices = None, edges = None\<rparr>" "[]" "\<lparr>type = ''knows'', props = sampleStyle\<rparr>" "[]"
          "sampleConfig (Str ''dotted'')" lineThickness]
  by (simp add: sampleStyling_def sampleConfig_def sampleStyle_def)

text \<open>With one entry per type id, every entry of the list is the one found for its type.\<close>

lemma unique_member_is_first:
  assumes d: "distinct (map type es)" and m: "ov \<in> set es"
  shows "\<exists>pre post. es = pre @ ov # post \<and> (\<forall>e\<in>set pre. type e \<noteq> type ov)"
proof -
  from m obtain pre post where es: "es = pre @ ov # post"
    by (meson split_list)
  from d have "type ov \<notin> type ` set pre"
    unfolding es by simp
  then have "\<forall>e\<in>set pre. type e \<noteq> type ov"
    by (metis imageI)
  with es show ?thesis by blast
qed

lemma unique_member_found:
  assumes "edges styling = Some es" and "distinct (map type es)" and "ov \<in> set es"
  shows "userEdgeStyle styling (type ov) = Some ov"
proof -
  from unique_member_is_first [OF assms(2,3)] obtain pre post
    where "es = pre @ ov # post" and "\<forall>e\<in>set pre. type e \<noteq> type ov"
    by blast
  with assms(1) show ?thesis
    by (simp add: userEdgeStyle_def find_first_match)
qed

section \<open>The attributes of an edge rule\<close>

lemma hexIsDark_fallback: "hexIsDark (Str ''#17457b'') = Some True"
  by (simp add: hexByte_def hexDigit_def)

lemma edgeRule_SomeD:
  "edgeRule d merged = Some r \<Longrightarrow>
   \<exists>c. textColor d merged = Some c \<and> r = map_of (edgeRuleAttrs d merged c)"
  by (cases "textColor d merged") (auto simp: edgeRule_def)

lemma edgeRuleAttrs_label:
  "map_of (edgeRuleAttrs d merged c) ''label'' = Some (Deferred (labelResolver d))"
  by (simp add: edgeRuleAttrs_def)

lemma edgeRuleAttrs_color:
  "map_of (edgeRuleAttrs d merged c) ''color'' = Some (Static c)"
  by (simp add: edgeRuleAttrs_def)

lemma edgeRuleAttrs_line_style:
  "map_of (edgeRuleAttrs d merged c) ''line-style'' =
     Some (Static (if getp merged lineStyle = Str ''dotted'' then Str ''dashed''
                   else getp merged lineStyle))"
  by (simp add: edgeRuleAttrs_def)

lemma edgeRuleAttrs_line_dash_pattern:
  "map_of (edgeRuleAttrs d merged c) ''line-dash-pattern'' =
     Some (Static (if truthy (getp merged lineStyle)
                   then LINE_PATTERN_at (getp merged lineStyle) else Undefined))"
  by (simp add: edgeRuleAttrs_def)

lemma edgeRuleAttrs_text_background_color:
  "map_of (edgeRuleAttrs d merged c) ''text-background-color'' =
     Some (Static (getp merged labelColor))"
  by (simp add: edgeRuleAttrs_def)

lemma LINE_PATTERN_at_simps:
  "LINE_PATTERN_at (Str ''solid'') = Undefined"
  "LINE_PATTERN_at (Str ''dashed'') = NumArray [5, 6]"
  "LINE_PATTERN_at (Str ''dotted'') = NumArray [1, 2]"
  by (simp_all add: LINE_PATTERN_at_def LINE_PATTERN_def)

lemma sample_edgeRule_defined:
  "\<exists>r. edgeRule sampleDeps (sampleConfig ls) = Some r"
  by (simp add: edgeRule_def textColor_def getp_def sampleConfig_def sampleDeps_def
      hexIsDark_fallback del: hexIsDark.simps)

text \<open>
  C2. In the rule built from a merged style: a line style "dotted" gives line-style
  "dashed" with the dash pattern [1, 2]; "dashed" gives line-style "dashed" with the
  pattern [5, 6]; "solid" gives line-style "solid" and an undefined dash pattern.
\<close>

theorem edgeRule_line_style:
  assumes "edgeRule d merged = Some r"
  shows "(getp merged lineStyle = Str ''dotted'' \<longrightarrow>
            r ''line-style'' = Some (Static (Str ''dashed'')) \<and>
            r ''line-dash-pattern'' = Some (Static (NumArray [1, 2]))) \<and>
         (getp merged lineStyle = Str ''dashed'' \<longrightarrow>
            r ''line-style'' = Some (Static (Str ''dashed'')) \<and>
            r ''line-dash-pattern'' = Some (Static (NumArray [5, 6]))) \<and>
         (getp merged lineStyle = Str ''solid'' \<longrightarrow>
            r ''line-style'' = Some (Static (Str ''solid'')) \<and>
            r ''line-dash-pattern'' = Some (Static Undefined))"
proof -
  from assms obtain c where r: "r = map_of (edgeRuleAttrs d merged c)"
    using edgeRule_SomeD by blast
  show ?thesis
    unfolding r edgeRuleAttrs_line_style edgeRuleAttrs_line_dash_pattern
    by (simp add: LINE_PATTERN_at_simps)
qed

theorem edgeRule_line_style_witness:
  "\<exists>r1 r2 r3.
     edgeRule sampleDeps (sampleConfig (Str ''dotted'')) = Some r1 \<and>
     getp (sampleConfig (Str ''dotted'')) lineStyle = Str ''dotted'' \<and>
     r1 ''line-style'' = Some (Static (Str ''dashed'')) \<and>
     r1 ''line-dash-pattern'' = Some (Static (NumArray [1, 2])) \<and>
     edgeRule sampleDeps (sampleConfig (Str ''dashed'')) = Some r2 \<and>
     getp (sampleConfig (Str ''dashed'')) lineStyle = Str ''dashed'' \<and>
     r2 ''line-style'' = Some (Static (Str ''dashed'')) \<and>
     r2 ''line-dash-pattern'' = Some (Static (NumArray [5, 6])) \<and>
     edgeRule sampleDeps (sampleConfig (Str ''solid'')) = Some r3 \<and>
     getp (sampleConfig (Str ''solid'')) lineStyle = Str ''solid'' \<and>
     r3 ''line-style'' = Some (Static (Str ''solid'')) \<and>
     r3 ''line-dash-pattern'' = Some (Static Undefined)"
proof -
  obtain r1 where r1: "edgeRule sampleDeps (sampleConfig (Str ''dotted'')) = Some r1"
    using sample_edgeRule_defined by blast
  obtain r2 where r2: "edgeRule sampleDeps (sampleConfig (Str ''dashed'')) = Some r2"
    using sample_edgeRule_defined by blast
  obtain r3 where r3: "edgeRule sampleDeps (sampleConfig (Str ''solid'')) = Some r3"
    using sample_edgeRule_defined by blast
  have g: "\<And>ls. getp (sampleConfig ls) lineStyle = ls"
    by (simp add: getp_def sampleConfig_def)
  show ?thesis
    using r1 r2 r3 g edgeRule_line_style [OF r1] edgeRule_line_style [OF r2]
      edgeRule_line_style [OF r3]
    by simp
qed

text \<open>
  C10. When the label colour of the merged style is absent (it reads as undefined) or the
  empty string, the text colour is decided on the fixed colour "#17457b" alone, and where
  the colour package finds that colour dark the rule has the text colour "#FFFFFF"; the
  text-background-color of the same rule is the label colour as it was read, the empty
  string included.
\<close>

theorem falsy_labelColor_text_color:
  assumes "getp merged labelColor = Undefined \<or> getp merged labelColor = Str []"
  shows "textColor d merged =
           (case colorIsDark d (Str ''#17457b'') of
              None \<Rightarrow> None
            | Some dark \<Rightarrow> Some (Str (if dark then ''#FFFFFF'' else ''#000000''))) \<and>
         (colorIsDark d (Str ''#17457b'') = Some True \<longrightarrow>
           (\<exists>r. edgeRule d merged = Some r \<and>
                r ''color'' = Some (Static (Str ''#FFFFFF'')) \<and>
                r ''text-background-color'' = Some (Static (getp merged labelColor))))"
proof -
  from assms have falsy: "\<not> truthy (getp merged labelColor)" by auto
  then have tc: "textColor d merged =
           (case colorIsDark d (Str ''#17457b'') of
              None \<Rightarrow> None
            | Some dark \<Rightarrow> Some (Str (if dark then ''#FFFFFF'' else ''#000000'')))"
    by (simp add: textColor_def)
  have "colorIsDark d (Str ''#17457b'') = Some True \<longrightarrow>
           (\<exists>r. edgeRule d merged = Some r \<and>
                r ''color'' = Some (Static (Str ''#FFFFFF'')) \<and>
                r ''text-background-color'' = Some (Static (getp merged labelColor)))"
  proof
    assume "colorIsDark d (Str ''#17457b'') = Some True"
    with tc have "textColor d merged = Some (Str ''#FFFFFF'')" by simp
    then have "edgeRule d merged = Some (map_of (edgeRuleAttrs d merged (Str ''#FFFFFF'')))"
      by (simp add: edgeRule_def)
    then show "\<exists>r. edgeRule d merged = Some r \<and>
                r ''color'' = Some (Static (Str ''#FFFFFF'')) \<and>
                r ''text-background-color'' = Some (Static (getp merged labelColor))"
      by (simp add: edgeRuleAttrs_color edgeRuleAttrs_text_background_color)
  qed
  with tc show ?thesis by (rule conjI)
qed

theorem falsy_labelColor_text_color_witness:
  "(getp (sampleConfig (Str ''solid'')) labelColor = Undefined \<or>
    getp (sampleConfig (Str ''solid'')) labelColor = Str []) \<and>
   colorIsDark sampleDeps (Str ''#17457b'') = Some True \<and>
   textColor sampleDeps (sampleConfig (Str ''solid'')) = Some (Str ''#FFFFFF'') \<and>
   (\<exists>r. edgeRule sampleDeps (sampleConfig (Str ''solid'')) = Some r \<and>
        r ''color'' = Some (Static (Str ''#FFFFFF'')) \<and>
        r ''text-background-color'' = Some (Static Undefined))"
proof -
  have g: "getp (sampleConfig (Str ''solid'')) labelColor = Undefined"
    by (simp add: getp_def sampleConfig_def)
  then have h: "getp (sampleConfig (Str ''solid'')) labelColor = Undefined \<or>
    getp (sampleConfig (Str ''solid'')) labelColor = Str []" by simp
  have dark: "colorIsDark sampleDeps (Str ''#17457b'') = Some True"
    by (simp add: sampleDeps_def hexIsDark_fallback del: hexIsDark.simps)
  show ?thesis
    using g dark falsy_labelColor_text_color [OF h, of sampleDeps]
    by simp
qed

section \<open>The published edge rules\<close>

lemma edgeSelector_inject: "edgeSelector a = edgeSelector b \<longleftrightarrow> a = b"
  by (simp add: edgeSelector_def)

lemma edgeStyles_other_keys:
  "edgeStyles d a st cfgs = Some st' \<Longrightarrow> \<forall>c\<in>set cfgs. edgeSelector (type c) \<noteq> k \<Longrightarrow> st' k = st k"
proof (induction cfgs arbitrary: st)
  case Nil
  then show ?case by simp
next
  case (Cons c rest)
  let ?m = "mergedConfig c (userEdgeStyle a (type c))"
  from Cons.prems(1) obtain r where r: "edgeRule d ?m = Some r"
    and rest: "edgeStyles d a
                 ((st(edgeSelector (type c) \<mapsto> staticRule (staticLabel d (type c))))
                    (edgeSelector (type c) \<mapsto> r)) rest = Some st'"
    by (cases "edgeRule d ?m") (simp_all add: Let_def)
  from Cons.prems(2) have "\<forall>c\<in>set rest. edgeSelector (type c) \<noteq> k" by simp
  from Cons.IH [OF rest this] Cons.prems(2) show ?case by auto
qed

lemma edgeStyles_published:
  "edgeStyles d a st cfgs = Some st' \<Longrightarrow> \<exists>c\<in>set cfgs. type c = et \<Longrightarrow>
   \<exists>cfg' r. cfg' \<in> set cfgs \<and> type cfg' = et \<and>
     edgeRule d (mergedConfig cfg' (userEdgeStyle a (type cfg'))) = Some r \<and>
     st' (edgeSelector et) = Some r"
proof (induction cfgs arbitrary: st)
  case Nil
  then show ?case by simp
next
  case (Cons c rest)
  let ?m = "mergedConfig c (userEdgeStyle a (type c))"
  from Cons.prems(1) obtain r where r: "edgeRule d ?m = Some r"
    and rest: "edgeStyles d a
                 ((st(edgeSelector (type c) \<mapsto> staticRule (staticLabel d (type c))))
                    (edgeSelector (type c) \<mapsto> r)) rest = Some st'"
    by (cases "edgeRule d ?m") (simp_all add: Let_def)
  show ?case
  proof (cases "\<exists>c'\<in>set rest. type c' = et")
    case True
    from Cons.IH [OF rest True] show ?thesis
      by (metis list.set_intros(2))
  next
    case False
    with Cons.prems(2) have eq: "type c = et" by auto
    from False have "\<forall>c'\<in>set rest. edgeSelector (type c') \<noteq> edgeSelector et"
      by (simp add: edgeSelector_inject)
    from edgeStyles_other_keys [OF rest this] eq
    have "st' (edgeSelector et) = Some r" by simp
    with r eq show ?thesis
      by (metis list.set_intros(1))
  qed
qed

lemma staticRule_label: "staticRule l ''label'' = Some (Static (Str l))"
  by (simp add: staticRule_def)

lemma sample_edgeStyles_defined:
  "\<exists>st'. edgeStyles sampleDeps sampleStyling Map.empty [sampleConfig (Str ''dotted'')] = Some st'"
proof -
  have "textColor sampleDeps
          (mergedConfig (sampleConfig (Str ''dotted''))
             (userEdgeStyle sampleStyling (type (sampleConfig (Str ''dotted''))))) =
        Some (Str ''#FFFFFF'')"
    by (simp add: textColor_def getp_def mergedConfig_def userEdgeStyle_def sampleStyling_def
        sampleConfig_def sampleStyle_def sampleDeps_def hexIsDark_fallback del: hexIsDark.simps)
  then show ?thesis
    by (simp add: edgeRule_def Let_def)
qed

text \<open>
  C4. When a pass publishes its style map, the rule under the selector of every edge type
  configuration has as its label the resolver function, not the string of the first
  assignment. Applied to the id of a rendered edge, the resolver takes the edge id from
  it and looks the edge up in the map of displayed edges: it answers the display name of
  the edge found, and the constant for a missing value when there is none. It is a total
  function: no input makes it fail.
\<close>

theorem published_label_is_resolver:
  assumes "edgeStyles d a st cfgs = Some st'" and "cfg \<in> set cfgs"
  shows "(\<exists>r. st' (edgeSelector (type cfg)) = Some r \<and>
              r ''label'' = Some (Deferred (labelResolver d)) \<and>
              r ''label'' \<noteq> staticRule (staticLabel d (type cfg)) ''label'') \<and>
         (displayEdges d (getEdgeIdFromRenderedEdgeId d el) = Some displayEdge \<longrightarrow>
            labelResolver d el = displayName displayEdge) \<and>
         (displayEdges d (getEdgeIdFromRenderedEdgeId d el) = None \<longrightarrow>
            labelResolver d el = MISSING_DISPLAY_VALUE d)"
proof -
  from assms(2) have "\<exists>c\<in>set cfgs. type c = type cfg" by blast
  from edgeStyles_published [OF assms(1) this] obtain cfg' r
    where r: "edgeRule d (mergedConfig cfg' (userEdgeStyle a (type cfg'))) = Some r"
      and p: "st' (edgeSelector (type cfg)) = Some r"
    by blast
  from edgeRule_SomeD [OF r] obtain c
    where "r = map_of (edgeRuleAttrs d (mergedConfig cfg' (userEdgeStyle a (type cfg'))) c)"
    by blast
  then have "r ''label'' = Some (Deferred (labelResolver d))"
    by (simp only: edgeRuleAttrs_label)
  with p have published: "\<exists>r. st' (edgeSelector (type cfg)) = Some r \<and>
             r ''label'' = Some (Deferred (labelResolver d)) \<and>
             r ''label'' \<noteq> staticRule (staticLabel d (type cfg)) ''label''"
    by (simp add: staticRule_label)
  have found: "displayEdges d (getEdgeIdFromRenderedEdgeId d el) = Some displayEdge \<longrightarrow>
           labelResolver d el = displayName displayEdge"
    by (simp add: labelResolver_def)
  have missing: "displayEdges d (getEdgeIdFromRenderedEdgeId d el) = None \<longrightarrow>
           labelResolver d el = MISSING_DISPLAY_VALUE d"
    by (simp add: labelResolver_def)
  from published found missing show ?thesis by (intro conjI)
qed

theorem published_label_is_resolver_witness:
  "\<exists>st' r.
     edgeStyles sampleDeps sampleStyling Map.empty [sampleConfig (Str ''dotted'')] = Some st' \<and>
     sampleConfig (Str ''dotted'') \<in> set [sampleConfig (Str ''dotted'')] \<and>
     st' (edgeSelector ''knows'') = Some r \<and>
     r ''label'' = Some (Deferred (labelResolver sampleDeps)) \<and>
     displayEdges sampleDeps (getEdgeIdFromRenderedEdgeId sampleDeps ''e1-0'') =
       Some \<lparr>displayName = ''Alice knows Bob''\<rparr> \<and>
     labelResolver sampleDeps ''e1-0'' = ''Alice knows Bob'' \<and>
     displayEdges sampleDeps (getEdgeIdFromRenderedEdgeId sampleDeps ''e2-0'') = None \<and>
     labelResolver sampleDeps ''e2-0'' = ''---''"
proof -
  obtain st' where s: "edgeStyles sampleDeps sampleStyling Map.empty [sampleConfig (Str ''dotted'')] = Some st'"
    using sample_edgeStyles_defined by blast
  have m: "sampleConfig (Str ''dotted'') \<in> set [sampleConfig (Str ''dotted'')]" by simp
  have t: "type (sampleConfig (Str ''dotted'')) = ''knows''" by (simp add: sampleConfig_def)
  have e1: "displayEdges sampleDeps (getEdgeIdFromRenderedEdgeId sampleDeps ''e1-0'') =
       Some \<lparr>displayName = ''Alice knows Bob''\<rparr>"
    by (simp add: sampleDeps_def)
  have e2: "displayEdges sampleDeps (getEdgeIdFromRenderedEdgeId sampleDeps ''e2-0'') = None"
    by (simp add: sampleDeps_def)
  have mv: "MISSING_DISPLAY_VALUE sampleDeps = ''---''" by (simp add: sampleDeps_def)
  note at_e1 = published_label_is_resolver
    [OF s m, of "''e1-0''" "\<lparr>displayName = ''Alice knows Bob''\<rparr>"]
  note at_e2 = published_label_is_resolver
    [OF s m, of "''e2-0''" "\<lparr>displayName = ''Alice knows Bob''\<rparr>"]
  from at_e1 t obtain r
    where "st' (edgeSelector ''knows'') = Some r"
      and "r ''label'' = Some (Deferred (labelResolver sampleDeps))"
    by auto
  moreover from at_e1 e1
  have "labelResolver sampleDeps ''e1-0'' = ''Alice knows Bob''" by simp
  moreover from at_e2 e2 mv
  have "labelResolver sampleDeps ''e2-0'' = ''---''" by simp
  ultimately show ?thesis using s m e1 e2 by blast
qed

section \<open>Setting and resetting an edge style\<close>

lemma find_map_same_key:
  "(\<And>x. P (f x) = P x) \<Longrightarrow> find P (map f xs) = map_option f (find P xs)"
  by (induction xs) auto

lemma find_None_iff_list_ex: "find P xs = None \<longleftrightarrow> \<not> list_ex P xs"
  by (induction xs) auto

lemma find_append_new: "find P xs = None \<Longrightarrow> P x \<Longrightarrow> find P (xs @ [x]) = Some x"
  by (induction xs) (auto split: if_splits)

lemma find_filter_out: "find P (filter (\<lambda>x. \<not> P x) xs) = None"
  by (induction xs) auto

lemma edgeStyle_setEdgeStyle:
  "edgeStyle (setEdgeStyle t s u) t =
     Some (case edgeStyle u t of
             None \<Rightarrow> \<lparr>type = t, props = s\<rparr>
           | Some prior \<Rightarrow> prior\<lparr>props := props prior ++ s\<rparr>)"
proof (cases "edges u")
  case None
  then show ?thesis by (simp add: edgeStyle_def setEdgeStyle_def)
next
  case (Some es)
  show ?thesis
  proof (cases "list_ex (\<lambda>v. type v = t) es")
    case True
    then obtain prior where prior: "find (\<lambda>v. type v = t) es = Some prior"
      using find_None_iff_list_ex [of "\<lambda>v. type v = t" es] by auto
    have "find (\<lambda>v. type v = t)
            (map (\<lambda>existing. if type existing = t
                              then existing\<lparr>props := props existing ++ s\<rparr> else existing) es) =
          map_option (\<lambda>existing. if type existing = t
                              then existing\<lparr>props := props existing ++ s\<rparr> else existing)
            (find (\<lambda>v. type v = t) es)"
      by (rule find_map_same_key) simp
    moreover from prior have "type prior = t"
      by (auto simp: find_Some_iff)
    ultimately show ?thesis
      using Some True prior by (simp add: edgeStyle_def setEdgeStyle_def)
  next
    case False
    then have none: "find (\<lambda>v. type v = t) es = None"
      by (simp add: find_None_iff_list_ex)
    then have "find (\<lambda>v. type v = t) (es @ [\<lparr>type = t, props = s\<rparr>]) = Some \<lparr>type = t, props = s\<rparr>"
      by (rule find_append_new) simp
    with Some False none show ?thesis
      by (simp add: edgeStyle_def setEdgeStyle_def)
  qed
qed

lemma edgeStyle_resetEdgeStyle: "edgeStyle (resetEdgeStyle t u) t = None"
  by (cases "edges u") (simp_all add: edgeStyle_def resetEdgeStyle_def find_filter_out)

lemma allStyling_saveEffect: "allStyling (saveEffect p) = allStyling p"
  by (simp add: saveEffect_def)

lemma queued_calls:
  "foldl (\<lambda>q m. setAllStyling (updaterOf m) q) p ms =
     p\<lparr>allStyling := afterCalls ms (allStyling p)\<rparr>"
proof (induction ms arbitrary: p)
  case Nil
  then show ?case by (simp add: afterCalls_def)
next
  case (Cons m ms)
  then show ?case by (simp add: afterCalls_def setAllStyling_def clone_def)
qed

lemma render_eq:
  "render ms p =
     (if ms = [] then p else saveEffect (p\<lparr>allStyling := afterCalls ms (allStyling p)\<rparr>))"
  by (simp add: render_def queued_calls)

lemma allStyling_render_single: "allStyling (render [m] p) = updaterOf m (allStyling p)"
  by (simp add: render_eq allStyling_saveEffect afterCalls_def)

text \<open>
  C7. After \<^verbatim>\<open>setEdgeStyle\<close> of a style S for a type T, looking T up gives an entry
  of type T whose value at every key is that of S where S holds the key, and that of the
  entry found before (if there was one) elsewhere. After \<^verbatim>\<open>resetEdgeStyle\<close> of T,
  looking T up gives nothing.
\<close>

theorem upsert_reset_roundtrip:
  "(\<exists>entry. edgeStyle (allStyling (step p (SetEdgeStyle t s))) t = Some entry \<and>
      type entry = t \<and>
      (\<forall>F. props entry F =
            (if F \<in> dom s then s F
             else case edgeStyle (allStyling p) t of
                    None \<Rightarrow> None
                  | Some prior \<Rightarrow> props prior F))) \<and>
   edgeStyle (allStyling (step p (ResetEdgeStyle t))) t = None"
proof -
  have r: "edgeStyle (allStyling (step p (ResetEdgeStyle t))) t = None"
    by (simp add: allStyling_render_single edgeStyle_resetEdgeStyle)
  have s: "edgeStyle (allStyling (step p (SetEdgeStyle t s))) t =
     Some (case edgeStyle (allStyling p) t of
             None \<Rightarrow> \<lparr>type = t, props = s\<rparr>
           | Some prior \<Rightarrow> prior\<lparr>props := props prior ++ s\<rparr>)"
    by (simp add: allStyling_render_single edgeStyle_setEdgeStyle)
  show ?thesis
  proof (cases "edgeStyle (allStyling p) t")
    case None
    with s r show ?thesis by (auto simp: map_add_def split: option.splits)
  next
    case (Some prior)
    then have "type prior = t"
      by (auto simp: edgeStyle_def find_Some_iff split: option.splits)
    with Some s r show ?thesis by (auto simp: map_add_def domIff split: option.splits)
  qed
qed

theorem upsert_reset_roundtrip_witness:
  "type \<lparr>type = ''knows'', props = sampleStyle\<rparr> = ''knows'' \<and>
   edgeStyle (allStyling (step mounted (SetEdgeStyle ''knows'' sampleStyle))) ''knows'' =
     Some \<lparr>type = ''knows'', props = sampleStyle\<rparr> \<and>
   edgeStyle (allStyling (step sampleProvider (ResetEdgeStyle ''knows''))) ''knows'' = None"
proof -
  have "edgeStyle (allStyling (step mounted (SetEdgeStyle ''knows'' sampleStyle))) ''knows'' =
     Some \<lparr>type = ''knows'', props = sampleStyle\<rparr>"
    by (simp add: mounted_def saveEffect_def render_def setAllStyling_def clone_def setEdgeStyle_def
        edgeStyle_def)
  then show ?thesis
    using upsert_reset_roundtrip [of sampleProvider "''knows''" sampleStyle]
    by simp
qed

lemma uniqueTypes_setEdgeStyle:
  assumes "uniqueTypes u"
  shows "uniqueTypes (setEdgeStyle t s u)"
proof (cases "edges u")
  case None
  then show ?thesis by (simp add: uniqueTypes_def setEdgeStyle_def)
next
  case (Some es)
  with assms have d: "distinct (map type es)" by (simp add: uniqueTypes_def)
  have same: "map type (map (\<lambda>existing. if type existing = t
                              then existing\<lparr>props := props existing ++ s\<rparr> else existing) es)
               = map type es"
    by (induction es) auto
  show ?thesis
  proof (cases "list_ex (\<lambda>v. type v = t) es")
    case True
    with Some d same show ?thesis
      by (simp add: uniqueTypes_def setEdgeStyle_def del: map_map)
  next
    case False
    then have "t \<notin> set (map type es)" by (auto simp: list_ex_iff)
    with Some d False show ?thesis
      by (simp add: uniqueTypes_def setEdgeStyle_def)
  qed
qed

lemma uniqueTypes_resetEdgeStyle:
  assumes "uniqueTypes u"
  shows "uniqueTypes (resetEdgeStyle t u)"
  using assms
  by (cases "edges u") (simp_all add: uniqueTypes_def resetEdgeStyle_def distinct_map_filter)

lemma setEdgeStyle_replaces:
  assumes "edgeStyle u t \<noteq> None"
  shows "map_option (map type) (edges (setEdgeStyle t s u)) = map_option (map type) (edges u)"
proof (cases "edges u")
  case None
  with assms show ?thesis by (simp add: edgeStyle_def)
next
  case (Some es)
  with assms have ex: "list_ex (\<lambda>v. type v = t) es"
    by (simp add: edgeStyle_def find_None_iff_list_ex)
  have "map type (map (\<lambda>existing. if type existing = t
                              then existing\<lparr>props := props existing ++ s\<rparr> else existing) es)
               = map type es"
    by (induction es) auto
  with Some ex show ?thesis
    by (simp add: setEdgeStyle_def del: map_map)
qed

text \<open>
  C9. If the list of edge entries has at most one entry per type id, it still has after
  \<^verbatim>\<open>setEdgeStyle\<close> and after \<^verbatim>\<open>resetEdgeStyle\<close>. Where an entry for the type
  exists, \<^verbatim>\<open>setEdgeStyle\<close> replaces it: the sequence of type ids stays as it was.
\<close>

theorem unique_types_preserved:
  assumes "uniqueTypes (allStyling p)"
  shows "uniqueTypes (allStyling (step p (SetEdgeStyle t s))) \<and>
         uniqueTypes (allStyling (step p (ResetEdgeStyle t))) \<and>
         (edgeStyle (allStyling p) t \<noteq> None \<longrightarrow>
            map_option (map type) (edges (allStyling (step p (SetEdgeStyle t s)))) =
            map_option (map type) (edges (allStyling p)))"
  using assms
  by (simp add: allStyling_render_single uniqueTypes_setEdgeStyle uniqueTypes_resetEdgeStyle
      setEdgeStyle_replaces)

theorem unique_types_preserved_witness:
  "uniqueTypes (allStyling sampleProvider) \<and>
   uniqueTypes (allStyling (step sampleProvider (SetEdgeStyle ''knows'' sampleStyle))) \<and>
   uniqueTypes (allStyling (step sampleProvider (SetEdgeStyle ''likes'' sampleStyle))) \<and>
   uniqueTypes (allStyling (step sampleProvider (ResetEdgeStyle ''knows''))) \<and>
   edgeStyle (allStyling sampleProvider) ''knows'' \<noteq> None \<and>
   map_option (map type) (edges (allStyling (step sampleProvider (SetEdgeStyle ''knows'' sampleStyle))))
     = Some [''knows'']"
proof -
  have u: "uniqueTypes (allStyling sampleProvider)"
    by (simp add: uniqueTypes_def sampleProvider_def sampleStyling_def)
  have e: "edgeStyle (allStyling sampleProvider) ''knows'' \<noteq> None"
    by (simp add: edgeStyle_def sampleProvider_def sampleStyling_def)
  have k: "map_option (map type) (edges (allStyling sampleProvider)) = Some [''knows'']"
    by (simp add: sampleProvider_def sampleStyling_def)
  show ?thesis
    using u e k
      unique_types_preserved [OF u, of "''knows''" sampleStyle]
      unique_types_preserved [OF u, of "''likes''" sampleStyle]
    by simp
qed

section \<open>Loading and saving\<close>

lemma step_keeps_loading:
  "isLoading (step p e) \<Longrightarrow> isLoading p \<and> setItemCalls (step p e) = setItemCalls p"
  by (cases e) (auto simp: render_eq saveEffect_def split: if_splits option.splits)

lemma run_snoc: "run (evs @ [e]) = step (run evs) e"
  by (simp add: run_def)

lemma mounted_loading: "isLoading mounted \<and> setItemCalls mounted = []"
  by (simp add: mounted_def saveEffect_def)

lemma loading_no_writes: "isLoading (run evs) \<Longrightarrow> setItemCalls (run evs) = []"
proof (induction evs rule: rev_induct)
  case Nil
  then show ?case by (simp add: run_def mounted_loading)
next
  case (snoc e evs)
  from snoc.prems have "isLoading (step (run evs) e)" by (simp add: run_snoc)
  from step_keeps_loading [OF this] snoc.IH show ?case by (simp add: run_snoc)
qed

text \<open>
  C5. In every state the provider can reach in which it is still loading, no
  \<^verbatim>\<open>setItem\<close> has been called; a mutation made in such a state puts the updater's
  result into the in-memory styling at once, leaves the provider loading and calls no
  \<^verbatim>\<open>setItem\<close>.
\<close>

theorem loading_mutation_memory_only:
  assumes "isLoading (run evs)"
  shows "allStyling (step (run evs) (SetEdgeStyle t s)) =
           setEdgeStyle t s (allStyling (run evs)) \<and>
         allStyling (step (run evs) (ResetEdgeStyle t)) =
           resetEdgeStyle t (allStyling (run evs)) \<and>
         isLoading (step (run evs) (SetEdgeStyle t s)) \<and>
         isLoading (step (run evs) (ResetEdgeStyle t)) \<and>
         setItemCalls (run evs) = [] \<and>
         setItemCalls (step (run evs) (SetEdgeStyle t s)) = [] \<and>
         setItemCalls (step (run evs) (ResetEdgeStyle t)) = []"
  using assms loading_no_writes [OF assms]
  by (simp add: render_def setAllStyling_def saveEffect_def clone_def)

theorem loading_mutation_memory_only_witness:
  "isLoading (run [ResetEdgeStyle ''likes'']) \<and>
   allStyling (step (run [ResetEdgeStyle ''likes'']) (SetEdgeStyle ''knows'' sampleStyle)) =
     sampleStyling \<and>
   isLoading (step (run [ResetEdgeStyle ''likes'']) (SetEdgeStyle ''knows'' sampleStyle)) \<and>
   setItemCalls (step (run [ResetEdgeStyle ''likes'']) (SetEdgeStyle ''knows'' sampleStyle)) = []"
proof -
  have r: "run [ResetEdgeStyle ''likes''] = mounted"
    by (simp add: run_def mounted_def render_def setAllStyling_def saveEffect_def clone_def
        resetEdgeStyle_def)
  have l: "isLoading (run [ResetEdgeStyle ''likes''])"
    by (simp add: r mounted_loading)
  have a: "setEdgeStyle ''knows'' sampleStyle (allStyling mounted) = sampleStyling"
    by (simp add: setEdgeStyle_def mounted_def saveEffect_def sampleStyling_def)
  show ?thesis
    using l a
      loading_mutation_memory_only [OF l, of "''knows''" sampleStyle]
    by (simp add: r)
qed




text \<open>A call that React renders on its own is a batch of one.\<close>

lemma single_call_is_batch:
  "step p (SetEdgeStyle t s) = step p (Batch [SetStyle t s])"
  "step p (ResetEdgeStyle t) = step p (Batch [ResetStyle t])"
  by simp_all

text \<open>
  C8. When the read of the stored styling fails while the provider is loading, the error
  is logged, the in-memory styling is left as it is, and the provider becomes ready. If
  nothing else has happened since mounting, the styling is the empty default and no
  type has an override.
\<close>

theorem load_failure_not_fatal:
  assumes "isLoading p"
  shows "consoleErrors (step p (LoadRejected err)) = consoleErrors p @ [LoadFailed err] \<and>
         allStyling (step p (LoadRejected err)) = allStyling p \<and>
         \<not> isLoading (step p (LoadRejected err)) \<and>
         allStyling (run [LoadRejected err]) = \<lparr>vertices = None, edges = None\<rparr> \<and>
         edgeStyle (allStyling (run [LoadRejected err])) t = None \<and>
         \<not> isLoading (run [LoadRejected err])"
  using assms
  by (simp add: saveEffect_def run_def mounted_def edgeStyle_def)

theorem load_failure_not_fatal_witness:
  "isLoading mounted \<and>
   consoleErrors (step mounted (LoadRejected ''quota'')) = [LoadFailed ''quota''] \<and>
   allStyling (step mounted (LoadRejected ''quota'')) = \<lparr>vertices = None, edges = None\<rparr> \<and>
   \<not> isLoading (step mounted (LoadRejected ''quota''))"
proof -
  have l: "isLoading mounted" by (simp add: mounted_loading)
  have c: "consoleErrors mounted = []" by (simp add: mounted_def saveEffect_def)
  have a: "allStyling mounted = \<lparr>vertices = None, edges = None\<rparr>"
    by (simp add: mounted_def saveEffect_def)
  show ?thesis
    using l c a
      load_failure_not_fatal [OF l, of "''quota''"]
    by simp
qed

end
